theory Spec2Isabelle
  imports Main "HOL-Library.Word" "HOL-Library.AList"
begin

section \<open>JavaScript values as they arrive in a parsed JSON body\<close>

text \<open>
  A JavaScript string is a sequence of 16-bit code units. The regular expressions and
  the numeric grammar of the language work on code units, so strings are modelled as
  lists of 16-bit words. \<open>js\<close> turns an ASCII literal into such a string.
\<close>

type_synonym jschar = "16 word"
type_synonym jsstring = "jschar list"

definition js :: "string \<Rightarrow> jsstring" where
  "js s = map of_char s"

text \<open>
  A Number is observed by this program in three ways only: \<open>!n\<close> asks whether it is
  NaN or a zero, \<open>isNaN(n)\<close> asks whether it is NaN, and \<open>Array.prototype.join\<close>
  asks for its string form. A Number is modelled by these three observations; the
  arithmetic of doubles plays no part in \<open>src/backend/server.js\<close>.
\<close>

record jsnumber =
  is_nan :: bool
  is_zero :: bool
  to_text :: jsstring

datatype jsval =
    JUndefined
  | JNull
  | JBool bool
  | JNum jsnumber
  | JStr jsstring
  | JArr "jsval list"
  | JObj "(jsstring \<times> jsval) list"

datatype js_error = TypeError

section \<open>The Content Sanitizer: \<open>sanitizeComment\<close>, the replacement chain\<close>

text \<open>
  \<open>s.replace(/c/g, r)\<close> for a pattern that is one literal character and a replacement
  text without \<open>$\<close>: every occurrence of \<open>c\<close>, left to right, becomes \<open>r\<close>.
\<close>

definition replace_all :: "jschar \<Rightarrow> jsstring \<Rightarrow> jsstring \<Rightarrow> jsstring" where
  "replace_all c r s = concat (map (\<lambda>x. if x = c then r else [x]) s)"

text \<open>Lines 57 to 61 of \<open>server.js\<close>: the four calls, in the order of the source.\<close>

definition escape_content :: "jsstring \<Rightarrow> jsstring" where
  "escape_content content =
     replace_all 0x22 (js ''&quot;'')
       (replace_all 0x3E (js ''&gt;'')
         (replace_all 0x3C (js ''&lt;'')
           (replace_all 0x26 (js ''&amp;'') content)))"

text \<open>The escape sequence of one character, as the specification lists them.\<close>

definition escape_char :: "jschar \<Rightarrow> jsstring" where
  "escape_char x =
     (if x = 0x26 then js ''&amp;''
      else if x = 0x3C then js ''&lt;''
      else if x = 0x3E then js ''&gt;''
      else if x = 0x22 then js ''&quot;''
      else [x])"

text \<open>
  The invariant of a stored comment: none of \<open><\<close>, \<open>>\<close>, \<open>"\<close> occurs, and every
  \<open>&\<close> starts one of the four escape sequences.
\<close>

definition starts_with :: "jsstring \<Rightarrow> jsstring \<Rightarrow> bool" where
  "starts_with p s = (take (length p) s = p)"

fun escaped_at_rest :: "jsstring \<Rightarrow> bool" where
  "escaped_at_rest [] = True"
| "escaped_at_rest (c # cs) =
     (c \<noteq> 0x3C \<and> c \<noteq> 0x3E \<and> c \<noteq> 0x22 \<and>
      (if c = 0x26
       then starts_with (js ''&amp;'') (c # cs) \<or> starts_with (js ''&lt;'') (c # cs) \<or>
            starts_with (js ''&gt;'') (c # cs) \<or> starts_with (js ''&quot;'') (c # cs)
       else True) \<and>
      escaped_at_rest cs)"

definition markup_significant :: "jschar \<Rightarrow> bool" where
  "markup_significant c = (c = 0x26 \<or> c = 0x3C \<or> c = 0x3E \<or> c = 0x22)"


section \<open>Coercions of the language used by the two validators\<close>

subsection \<open>\<open>!v\<close>: ToBoolean\<close>

fun truthy :: "jsval \<Rightarrow> bool" where
  "truthy JUndefined = False"
| "truthy JNull = False"
| "truthy (JBool b) = b"
| "truthy (JNum n) = (\<not> is_nan n \<and> \<not> is_zero n)"
| "truthy (JStr s) = (s \<noteq> [])"
| "truthy (JArr xs) = True"
| "truthy (JObj kvs) = True"

text \<open>The operator \<open>!\<close>.\<close>

definition logical_not :: "jsval \<Rightarrow> bool" where
  "logical_not v = (\<not> truthy v)"

subsection \<open>The grammar \<open>StringNumericLiteral\<close> of ECMAScript\<close>

text \<open>
  \<open>Number(s)\<close> is NaN exactly when the string \<open>s\<close> is not an expansion of
  \<open>StringNumericLiteral\<close>; otherwise it is the rounded value of the literal, which is
  never NaN. The recognisers below follow the productions of the grammar one by one.
\<close>

definition StrWhiteSpaceChar :: "jschar \<Rightarrow> bool" where
  "StrWhiteSpaceChar c =
     (c \<in> set [0x09, 0x0B, 0x0C, 0x20, 0xA0, 0x1680, 0x202F, 0x205F, 0x3000, 0xFEFF,
                0x0A, 0x0D, 0x2028, 0x2029]
      \<or> (0x2000 \<le> c \<and> c \<le> 0x200A))"

definition DecimalDigit :: "jschar \<Rightarrow> bool" where
  "DecimalDigit c = (0x30 \<le> c \<and> c \<le> 0x39)"

definition HexDigit :: "jschar \<Rightarrow> bool" where
  "HexDigit c = (DecimalDigit c \<or> (0x41 \<le> c \<and> c \<le> 0x46) \<or> (0x61 \<le> c \<and> c \<le> 0x66))"

definition OctalDigit :: "jschar \<Rightarrow> bool" where
  "OctalDigit c = (0x30 \<le> c \<and> c \<le> 0x37)"

definition BinaryDigit :: "jschar \<Rightarrow> bool" where
  "BinaryDigit c = (c = 0x30 \<or> c = 0x31)"

definition digits :: "(jschar \<Rightarrow> bool) \<Rightarrow> jsstring \<Rightarrow> bool" where
  "digits p s = (s \<noteq> [] \<and> list_all p s)"

definition SignedInteger :: "jsstring \<Rightarrow> bool" where
  "SignedInteger s =
     (case s of
        [] \<Rightarrow> False
      | c # r \<Rightarrow> if c = 0x2B \<or> c = 0x2D then digits DecimalDigit r
                 else digits DecimalDigit s)"

definition ExponentPart :: "jsstring \<Rightarrow> bool" where
  "ExponentPart s =
     (case s of
        [] \<Rightarrow> False
      | c # r \<Rightarrow> (c = 0x65 \<or> c = 0x45) \<and> SignedInteger r)"

definition StrUnsignedDecimalLiteral :: "jsstring \<Rightarrow> bool" where
  "StrUnsignedDecimalLiteral s =
     (s = js ''Infinity'' \<or>
      (let ip = takeWhile DecimalDigit s; rest = dropWhile DecimalDigit s in
       case rest of
         [] \<Rightarrow> ip \<noteq> []
       | c # r \<Rightarrow>
           if c = 0x2E then
             (let fp = takeWhile DecimalDigit r; rest' = dropWhile DecimalDigit r in
              (ip \<noteq> [] \<or> fp \<noteq> []) \<and> (rest' = [] \<or> ExponentPart rest'))
           else ip \<noteq> [] \<and> ExponentPart rest))"

definition StrDecimalLiteral :: "jsstring \<Rightarrow> bool" where
  "StrDecimalLiteral s =
     (case s of
        [] \<Rightarrow> False
      | c # r \<Rightarrow> if c = 0x2B \<or> c = 0x2D then StrUnsignedDecimalLiteral r
                 else StrUnsignedDecimalLiteral s)"

definition NonDecimalIntegerLiteral :: "jsstring \<Rightarrow> bool" where
  "NonDecimalIntegerLiteral s =
     (case s of
        z # p # r \<Rightarrow>
          z = 0x30 \<and>
          (((p = 0x62 \<or> p = 0x42) \<and> digits BinaryDigit r) \<or>
           ((p = 0x6F \<or> p = 0x4F) \<and> digits OctalDigit r) \<or>
           ((p = 0x78 \<or> p = 0x58) \<and> digits HexDigit r))
      | _ \<Rightarrow> False)"

definition StrNumericLiteral :: "jsstring \<Rightarrow> bool" where
  "StrNumericLiteral s = (StrDecimalLiteral s \<or> NonDecimalIntegerLiteral s)"

definition trim :: "jsstring \<Rightarrow> jsstring" where
  "trim s = rev (dropWhile StrWhiteSpaceChar (rev (dropWhile StrWhiteSpaceChar s)))"

definition StringNumericLiteral :: "jsstring \<Rightarrow> bool" where
  "StringNumericLiteral s = (let t = trim s in t = [] \<or> StrNumericLiteral t)"

subsection \<open>Numbers the runtime creates: lengths and row identifiers\<close>

text \<open>
  Both are integers that a double holds exactly and that lie below \<open>10^21\<close>, where the
  text of a Number is its decimal notation.
\<close>

fun decimal :: "nat \<Rightarrow> jsstring" where
  "decimal n =
     (if n < 10 then [0x30 + of_nat n]
      else decimal (n div 10) @ [0x30 + of_nat (n mod 10)])"

declare decimal.simps [simp del]

definition number_of_nat :: "nat \<Rightarrow> jsnumber" where
  "number_of_nat n = \<lparr>is_nan = False, is_zero = (n = 0), to_text = decimal n\<rparr>"

definition number_of_int :: "int \<Rightarrow> jsnumber" where
  "number_of_int i =
     \<lparr>is_nan = False, is_zero = (i = 0),
      to_text = (if i < 0 then 0x2D # decimal (nat (- i)) else decimal (nat i))\<rparr>"

subsection \<open>ToString and ToPrimitive on parsed JSON\<close>

text \<open>
  An object parsed from JSON has data properties only, none of them callable.
  OrdinaryToPrimitive skips an own \<open>valueOf\<close> or \<open>toString\<close> that is not callable;
  the inherited \<open>valueOf\<close> returns the object itself, so the outcome rests on
  \<open>toString\<close>: the inherited one gives \<open>[object Object]\<close>, an own one leaves no
  method and the conversion throws a TypeError. An array converts through
  \<open>Array.prototype.join\<close>, where \<open>undefined\<close> and \<open>null\<close> elements give the empty text.
\<close>

fun ToString :: "jsval \<Rightarrow> js_error + jsstring"
  and join :: "jsval list \<Rightarrow> js_error + jsstring" where
  "ToString JUndefined = Inr (js ''undefined'')"
| "ToString JNull = Inr (js ''null'')"
| "ToString (JBool b) = Inr (if b then js ''true'' else js ''false'')"
| "ToString (JNum n) = Inr (to_text n)"
| "ToString (JStr s) = Inr s"
| "ToString (JArr xs) = join xs"
| "ToString (JObj kvs) =
     (if map_of kvs (js ''toString'') = None then Inr (js ''[object Object]'')
      else Inl TypeError)"
| "join [] = Inr []"
| "join (x # xs) =
     (case (if x = JUndefined \<or> x = JNull then Inr [] else ToString x) of
        Inl e \<Rightarrow> Inl e
      | Inr s \<Rightarrow>
          (case xs of
             [] \<Rightarrow> Inr s
           | _ # _ \<Rightarrow>
               (case join xs of
                  Inl e \<Rightarrow> Inl e
                | Inr t \<Rightarrow> Inr (s @ 0x2C # t))))"

subsection \<open>The global function \<open>isNaN\<close>: ToNumber, then the NaN test\<close>

definition isNaN :: "jsval \<Rightarrow> js_error + bool" where
  "isNaN v =
     (case v of
        JUndefined \<Rightarrow> Inr True
      | JNull \<Rightarrow> Inr False
      | JBool b \<Rightarrow> Inr False
      | JNum n \<Rightarrow> Inr (is_nan n)
      | JStr s \<Rightarrow> Inr (\<not> StringNumericLiteral s)
      | _ \<Rightarrow>
          (case ToString v of
             Inl e \<Rightarrow> Inl e
           | Inr s \<Rightarrow> Inr (\<not> StringNumericLiteral s)))"

subsection \<open>Property reads and writes\<close>

text \<open>
  \<open>const { k } = v\<close> for a key \<open>k\<close> that no built-in prototype defines (\<open>id\<close> and
  \<open>content\<close>): a TypeError on \<open>undefined\<close> and \<open>null\<close>, the own property of an
  object, and \<open>undefined\<close> where there is none. The association list of an object has
  each key once, as \<open>JSON.parse\<close> builds it.
\<close>

definition get_prop :: "jsval \<Rightarrow> jsstring \<Rightarrow> js_error + jsval" where
  "get_prop v k =
     (case v of
        JUndefined \<Rightarrow> Inl TypeError
      | JNull \<Rightarrow> Inl TypeError
      | JObj kvs \<Rightarrow> Inr (case map_of kvs k of None \<Rightarrow> JUndefined | Some x \<Rightarrow> x)
      | _ \<Rightarrow> Inr JUndefined)"

text \<open>\<open>v.k = x\<close> on an object; the program performs it on \<open>req.body\<close> only.\<close>

definition set_prop :: "jsval \<Rightarrow> jsstring \<Rightarrow> jsval \<Rightarrow> jsval" where
  "set_prop v k x = (case v of JObj kvs \<Rightarrow> JObj (AList.update k x kvs) | _ \<Rightarrow> v)"

text \<open>\<open>content.length\<close> for a value that is neither \<open>undefined\<close> nor \<open>null\<close>.\<close>

definition length_of :: "jsval \<Rightarrow> jsval" where
  "length_of v =
     (case v of
        JStr s \<Rightarrow> JNum (number_of_nat (length s))
      | JArr xs \<Rightarrow> JNum (number_of_nat (length xs))
      | JObj kvs \<Rightarrow> (case map_of kvs (js ''length'') of None \<Rightarrow> JUndefined | Some x \<Rightarrow> x)
      | _ \<Rightarrow> JUndefined)"

text \<open>\<open>v === 0\<close>: a Number that is a zero.\<close>

definition strictly_zero :: "jsval \<Rightarrow> bool" where
  "strictly_zero v = (case v of JNum n \<Rightarrow> is_zero n \<and> \<not> is_nan n | _ \<Rightarrow> False)"

section \<open>Requests, responses and the two middlewares\<close>

record request =
  body :: jsval

datatype payload = Json jsval | Text jsstring

record response =
  status :: nat
  payload :: payload

text \<open>
  A middleware ends in one of three ways: it calls \<open>next()\<close> with the request as it
  has left it, it sends a response, or an exception leaves it.
\<close>

datatype outcome = Next request | Reply response | Throw js_error

definition error_json :: "string \<Rightarrow> payload" where
  "error_json msg = Json (JObj [(js ''error'', JStr (js msg))])"

text \<open>Lines 36 to 45 of \<open>server.js\<close>.\<close>

definition validateUserId :: "request \<Rightarrow> outcome" where
  "validateUserId req =
     (case get_prop (body req) (js ''id'') of
        Inl e \<Rightarrow> Throw e
      | Inr ident \<Rightarrow>
          if logical_not ident then Reply \<lparr>status = 400, payload = error_json ''Invalid ID''\<rparr>
          else
            (case isNaN ident of
               Inl e \<Rightarrow> Throw e
             | Inr nan \<Rightarrow>
                 if nan then Reply \<lparr>status = 400, payload = error_json ''Invalid ID''\<rparr>
                 else Next req))"

text \<open>
  Lines 47 to 65. Only a string has a \<open>replace\<close> method; on any other value that
  passed the two tests, \<open>content.replace\<close> is not a function and the call throws.
\<close>

definition sanitizeComment :: "request \<Rightarrow> outcome" where
  "sanitizeComment req =
     (case get_prop (body req) (js ''content'') of
        Inl e \<Rightarrow> Throw e
      | Inr content \<Rightarrow>
          if logical_not content \<or> strictly_zero (length_of content)
          then Reply \<lparr>status = 400, payload = error_json ''Comment cannot be empty''\<rparr>
          else
            (case content of
               JStr s \<Rightarrow>
                 Next (req\<lparr>body := set_prop (body req) (js ''content'')
                                     (JStr (escape_content s))\<rparr>)
             | _ \<Rightarrow> Throw TypeError))"

section \<open>The Record Store and the routes\<close>

text \<open>
  The tables of lines 78 to 88. The store is an outside collaborator: whether it
  reports an error, and how SQLite compares the \<open>id\<close> column with a bound parameter,
  are taken as they come (\<open>failure\<close>, \<open>id_equals\<close>).
\<close>

record user_row =
  user_id :: int
  user_name :: jsstring
  user_password :: jsstring

record comment_row =
  comment_id :: int
  comment_content :: jsval

record database =
  users :: "user_row list"
  comments :: "comment_row list"
  failure :: "jsstring option"
  id_equals :: "int \<Rightarrow> jsval \<Rightarrow> bool"

datatype db_call =
    DbAll jsstring "jsval list"
  | DbGet jsstring "jsval list"
  | DbRun jsstring "jsval list"

datatype reply = Sent response | Raised js_error

record result =
  reply :: reply
  calls :: "db_call list"
  db_after :: database

definition no_store_access :: "database \<Rightarrow> reply \<Rightarrow> result" where
  "no_store_access db r = \<lparr>reply = r, calls = [], db_after = db\<rparr>"

text \<open>Lines 144 to 152: \<open>SELECT id FROM users\<close>.\<close>

definition get_users :: "database \<Rightarrow> result" where
  "get_users db =
     \<lparr>reply =
        (case failure db of
           Some m \<Rightarrow> Sent \<lparr>status = 500, payload = Text (js ''Database error'')\<rparr>
         | None \<Rightarrow>
             Sent \<lparr>status = 200,
                   payload = Json (JArr (map (\<lambda>u. JObj [(js ''id'', JNum (number_of_int (user_id u)))])
                                          (users db)))\<rparr>),
      calls = [DbAll (js ''SELECT id FROM users'') []],
      db_after = db\<rparr>"

text \<open>Lines 159 to 174: the handler behind \<open>validateUserId\<close>.\<close>

definition user_row_json :: "user_row \<Rightarrow> jsval" where
  "user_row_json u =
     JObj [(js ''id'', JNum (number_of_int (user_id u))), (js ''name'', JStr (user_name u))]"

definition user_handler :: "database \<Rightarrow> request \<Rightarrow> result" where
  "user_handler db req =
     (case get_prop (body req) (js ''id'') of
        Inl e \<Rightarrow> no_store_access db (Raised e)
      | Inr ident \<Rightarrow>
          \<lparr>reply =
             (case failure db of
                Some m \<Rightarrow> Sent \<lparr>status = 500, payload = Json (JObj [(js ''error'', JStr m)])\<rparr>
              | None \<Rightarrow>
                  (case find (\<lambda>u. id_equals db (user_id u) ident) (users db) of
                     Some u \<Rightarrow> Sent \<lparr>status = 200, payload = Json (JArr [user_row_json u])\<rparr>
                   | None \<Rightarrow> Sent \<lparr>status = 200, payload = Json (JArr [])\<rparr>)),
           calls = [DbGet (js ''SELECT id, name FROM users WHERE id = ?'') [ident]],
           db_after = db\<rparr>)"

definition post_user :: "database \<Rightarrow> request \<Rightarrow> result" where
  "post_user db req =
     (case validateUserId req of
        Next req' \<Rightarrow> user_handler db req'
      | Reply r \<Rightarrow> no_store_access db (Sent r)
      | Throw e \<Rightarrow> no_store_access db (Raised e))"

text \<open>
  The binding hands a string to SQLite as UTF-8, and a TEXT column holds UTF-8. A
  surrogate pair survives the encoding; a surrogate without its partner has no UTF-8
  form and becomes U+FFFD, the replacement character. \<open>to_well_formed\<close> is the string
  that a row holds, and gives back, for a bound string.
\<close>

definition high_surrogate :: "jschar \<Rightarrow> bool" where
  "high_surrogate c = (0xD800 \<le> c \<and> c \<le> 0xDBFF)"

definition low_surrogate :: "jschar \<Rightarrow> bool" where
  "low_surrogate c = (0xDC00 \<le> c \<and> c \<le> 0xDFFF)"

definition surrogate :: "jschar \<Rightarrow> bool" where
  "surrogate c = (high_surrogate c \<or> low_surrogate c)"

fun to_well_formed :: "jsstring \<Rightarrow> jsstring" where
  "to_well_formed [] = []"
| "to_well_formed [c] = (if surrogate c then [0xFFFD] else [c])"
| "to_well_formed (c # d # cs) =
     (if high_surrogate c \<and> low_surrogate d then c # d # to_well_formed cs
      else if surrogate c then 0xFFFD # to_well_formed (d # cs)
      else c # to_well_formed (d # cs))"

text \<open>The value of the column for a bound parameter; the route binds strings only.\<close>

definition text_at_rest :: "jsval \<Rightarrow> jsval" where
  "text_at_rest v = (case v of JStr s \<Rightarrow> JStr (to_well_formed s) | _ \<Rightarrow> v)"

text \<open>
  Lines 181 to 195: the handler behind \<open>sanitizeComment\<close>. The new row takes the next
  identifier of the AUTOINCREMENT column.
\<close>

definition next_comment_id :: "database \<Rightarrow> int" where
  "next_comment_id db = fold max (map comment_id (comments db)) 0 + 1"

definition comment_handler :: "database \<Rightarrow> request \<Rightarrow> result" where
  "comment_handler db req =
     (case get_prop (body req) (js ''content'') of
        Inl e \<Rightarrow> no_store_access db (Raised e)
      | Inr content \<Rightarrow>
          (case failure db of
             Some m \<Rightarrow>
               \<lparr>reply = Sent \<lparr>status = 500, payload = Json (JObj [(js ''error'', JStr m)])\<rparr>,
                calls = [DbRun (js ''INSERT INTO comments (content) VALUES (?)'') [content]],
                db_after = db\<rparr>
           | None \<Rightarrow>
               \<lparr>reply = Sent \<lparr>status = 200, payload = Json (JObj [(js ''success'', JBool True)])\<rparr>,
                calls = [DbRun (js ''INSERT INTO comments (content) VALUES (?)'') [content]],
                db_after =
                  db\<lparr>comments := comments db @
                       [\<lparr>comment_id = next_comment_id db,
                         comment_content = text_at_rest content\<rparr>]\<rparr>\<rparr>))"

definition post_comment :: "database \<Rightarrow> request \<Rightarrow> result" where
  "post_comment db req =
     (case sanitizeComment req of
        Next req' \<Rightarrow> comment_handler db req'
      | Reply r \<Rightarrow> no_store_access db (Sent r)
      | Throw e \<Rightarrow> no_store_access db (Raised e))"

text \<open>Lines 198 to 206: \<open>SELECT * FROM comments ORDER BY id DESC\<close>.\<close>

definition comment_row_json :: "comment_row \<Rightarrow> jsval" where
  "comment_row_json c =
     JObj [(js ''id'', JNum (number_of_int (comment_id c))), (js ''content'', comment_content c)]"

definition get_comments :: "database \<Rightarrow> result" where
  "get_comments db =
     \<lparr>reply =
        (case failure db of
           Some m \<Rightarrow> Sent \<lparr>status = 500, payload = Text (js ''Database error'')\<rparr>
         | None \<Rightarrow>
             Sent \<lparr>status = 200,
                   payload = Json (JArr (map comment_row_json
                                          (rev (sort_key comment_id (comments db)))))\<rparr>),
      calls = [DbAll (js ''SELECT * FROM comments ORDER BY id DESC'') []],
      db_after = db\<rparr>"

section \<open>Notions the claims speak about\<close>

text \<open>A positive integer written in decimal: digits, not all of them \<open>0\<close>.\<close>

definition positive_integer_text :: "jsstring \<Rightarrow> bool" where
  "positive_integer_text s = (digits DecimalDigit s \<and> \<not> list_all (\<lambda>c. c = 0x30) s)"

text \<open>
  Trailing garbage after a numeral: a character that is no digit and no white space,
  and that no production of the grammar allows after digits (\<open>.\<close>, \<open>e\<close>, \<open>E\<close>, and the
  radix letters \<open>b\<close>, \<open>o\<close>, \<open>x\<close> in either case).
\<close>

definition garbage_char :: "jschar \<Rightarrow> bool" where
  "garbage_char c =
     (\<not> DecimalDigit c \<and> \<not> StrWhiteSpaceChar c \<and>
      c \<notin> set [0x2E, 0x65, 0x45, 0x62, 0x42, 0x6F, 0x4F, 0x78, 0x58])"

text \<open>A comment row whose content is a string that satisfies the invariant.\<close>

definition stored_escaped :: "comment_row \<Rightarrow> bool" where
  "stored_escaped c = (case comment_content c of JStr s \<Rightarrow> escaped_at_rest s | _ \<Rightarrow> False)"

text \<open>Two store states that differ in nothing but the passwords of their users.\<close>

definition differ_only_in_passwords :: "database \<Rightarrow> database \<Rightarrow> bool" where
  "differ_only_in_passwords db db' =
     (list_all2 (\<lambda>u u'. user_id u = user_id u' \<and> user_name u = user_name u')
        (users db) (users db') \<and>
      comments db = comments db' \<and> failure db = failure db' \<and>
      id_equals db = id_equals db')"

text \<open>
  A store with two users and one comment, for running the routes on concrete requests.
  Its comparison finds a row by the Number of its identifier or by the decimal text.
\<close>

definition sample_users :: "jsstring \<Rightarrow> jsstring \<Rightarrow> user_row list" where
  "sample_users p q =
     [\<lparr>user_id = 1, user_name = js ''Ada Lovelace'', user_password = p\<rparr>,
      \<lparr>user_id = 2, user_name = js ''Alan Turing'', user_password = q\<rparr>]"

definition sample_store_with :: "user_row list \<Rightarrow> database" where
  "sample_store_with us =
     \<lparr>users = us,
      comments = [\<lparr>comment_id = 1, comment_content = JStr (js ''first'')\<rparr>],
      failure = None,
      id_equals = (\<lambda>i v. v = JNum (number_of_int i) \<or> v = JStr (to_text (number_of_int i)))\<rparr>"

definition sample_store :: database where
  "sample_store = sample_store_with (sample_users (js ''$2b$10$abc'') (js ''$2b$10$def''))"

text \<open>The same store at a moment when SQLite reports an error for every statement.\<close>

definition failing_store :: database where
  "failing_store = sample_store\<lparr>failure := Some (js ''SQLITE_BUSY: database is locked'')\<rparr>"

section \<open>Properties of the replacement chain\<close>

lemma replace_all_append:
  "replace_all c r (a @ b) = replace_all c r a @ replace_all c r b"
  by (simp add: replace_all_def)

lemma replace_all_concat:
  "replace_all c r (concat xss) = concat (map (replace_all c r) xss)"
  by (induction xss) (simp_all add: replace_all_append, simp add: replace_all_def)

lemma js_amp: "js ''&amp;'' = [0x26, 0x61, 0x6D, 0x70, 0x3B]"
  by (simp add: js_def)

lemma js_lt: "js ''&lt;'' = [0x26, 0x6C, 0x74, 0x3B]"
  by (simp add: js_def)

lemma js_gt: "js ''&gt;'' = [0x26, 0x67, 0x74, 0x3B]"
  by (simp add: js_def)

lemma js_quot: "js ''&quot;'' = [0x26, 0x71, 0x75, 0x6F, 0x74, 0x3B]"
  by (simp add: js_def)

lemma escape_one:
  "replace_all 0x22 (js ''&quot;'')
     (replace_all 0x3E (js ''&gt;'')
       (replace_all 0x3C (js ''&lt;'')
         (if x = 0x26 then js ''&amp;'' else [x]))) = escape_char x"
  by (simp add: replace_all_def escape_char_def js_amp js_lt js_gt js_quot)

lemma escape_content_charwise: "escape_content s = concat (map escape_char s)"
proof -
  have "escape_content s =
        concat (map (\<lambda>x. replace_all 0x22 (js ''&quot;'')
                 (replace_all 0x3E (js ''&gt;'')
                   (replace_all 0x3C (js ''&lt;'')
                     (if x = 0x26 then js ''&amp;'' else [x])))) s)"
    unfolding escape_content_def
    by (subst replace_all_def [of "0x26"])
       (simp add: replace_all_concat comp_def)
  then show ?thesis
    by (simp add: escape_one)
qed

lemma escaped_at_rest_escape_char:
  "escaped_at_rest rest \<Longrightarrow> escaped_at_rest (escape_char x @ rest)"
  by (simp add: escape_char_def js_amp js_lt js_gt js_quot starts_with_def)

lemma escaped_at_rest_charwise: "escaped_at_rest (concat (map escape_char s))"
  by (induction s) (simp_all add: escaped_at_rest_escape_char)

lemma escaped_at_rest_escape_content: "escaped_at_rest (escape_content s)"
  by (simp add: escape_content_charwise escaped_at_rest_charwise)

lemma length_escape_char_ge: "1 \<le> length (escape_char x)"
  by (simp add: escape_char_def js_amp js_lt js_gt js_quot)

lemma length_escape_char_gt: "markup_significant x \<Longrightarrow> 1 < length (escape_char x)"
  by (auto simp add: escape_char_def markup_significant_def js_amp js_lt js_gt js_quot)

lemma length_charwise_ge: "length s \<le> length (concat (map escape_char s))"
proof (induction s)
  case Nil
  show ?case by simp
next
  case (Cons x s)
  from length_escape_char_ge [of x] Cons show ?case by simp
qed

lemma length_charwise_gt:
  "\<exists>c\<in>set s. markup_significant c \<Longrightarrow> length s < length (concat (map escape_char s))"
proof (induction s)
  case Nil
  then show ?case by simp
next
  case (Cons x s)
  show ?case
  proof (cases "markup_significant x")
    case True
    from length_escape_char_gt [OF True] length_charwise_ge [of s] show ?thesis by simp
  next
    case False
    with Cons.prems have "\<exists>c\<in>set s. markup_significant c" by simp
    from Cons.IH [OF this] length_escape_char_ge [of x] show ?thesis by simp
  qed
qed

lemma charwise_safe:
  "\<forall>c\<in>set s. \<not> markup_significant c \<Longrightarrow> concat (map escape_char s) = s"
  by (induction s) (simp_all add: escape_char_def markup_significant_def)

lemma escape_ampersand_less: "escape_content (js ''&<'') = js ''&amp;&lt;''"
  by (simp add: escape_content_def replace_all_def js_def)

lemma escape_less: "escape_content (js ''<'') = js ''&lt;''"
  by (simp add: escape_content_def replace_all_def js_def)

lemma escape_escaped_less: "escape_content (js ''&lt;'') = js ''&amp;lt;''"
  by (simp add: escape_content_def replace_all_def js_def)

text \<open>
  Were \<open>&\<close> replaced after \<open><\<close>, the \<open>&\<close> that the first replacement wrote would be
  escaped again.
\<close>

lemma ampersand_last_escapes_twice:
  "replace_all 0x26 (js ''&amp;'') (replace_all 0x3C (js ''&lt;'') (js ''&<'')) =
   js ''&amp;&amp;lt;''"
  by (simp add: replace_all_def js_def)

text \<open>
  C6, as the claim states it: the sanitizer leaves its own output unchanged. It does
  not: the output for \<open><\<close> is \<open>&lt;\<close>, and sanitizing that gives \<open>&amp;lt;\<close>.
\<close>

theorem sanitizer_output_changes_when_sanitized_again:
  "escape_content (escape_content (js ''<'')) \<noteq> escape_content (js ''<'')"
  by (simp add: escape_less escape_escaped_less) (simp add: js_def)

text \<open>
  C6, amended: sanitizing is a no-op exactly on the strings that contain none of the
  four characters \<open>&\<close>, \<open><\<close>, \<open>>\<close>, \<open>"\<close>.
\<close>

theorem sanitizing_is_noop_iff_only_safe_characters:
  "escape_content s = s \<longleftrightarrow> (\<forall>c\<in>set s. \<not> markup_significant c)"
proof
  assume eq: "escape_content s = s"
  show "\<forall>c\<in>set s. \<not> markup_significant c"
  proof (rule ccontr)
    assume "\<not> (\<forall>c\<in>set s. \<not> markup_significant c)"
    then have "\<exists>c\<in>set s. markup_significant c" by simp
    from length_charwise_gt [OF this] eq show False
      by (simp add: escape_content_charwise)
  qed
next
  assume "\<forall>c\<in>set s. \<not> markup_significant c"
  then show "escape_content s = s"
    by (simp add: escape_content_charwise charwise_safe)
qed

theorem sanitizing_is_noop_iff_only_safe_characters_witness:
  "list_all (\<lambda>c. \<not> markup_significant c) (js ''hello'') \<and>
   escape_content (js ''hello'') = js ''hello''"
  using sanitizing_is_noop_iff_only_safe_characters [of "js ''hello''"]
  by (simp add: js_def markup_significant_def)

section \<open>The text that a row holds\<close>

lemma escape_char_surrogate: "surrogate x \<Longrightarrow> escape_char x = [x]"
  by (auto simp add: escape_char_def surrogate_def high_surrogate_def low_surrogate_def)

lemma escape_char_no_surrogate:
  "\<not> surrogate x \<Longrightarrow> \<forall>c\<in>set (escape_char x). \<not> surrogate c"
  by (simp add: escape_char_def js_amp js_lt js_gt js_quot surrogate_def high_surrogate_def
      low_surrogate_def)

lemma escape_char_not_empty: "escape_char x \<noteq> []"
  by (simp add: escape_char_def js_amp js_lt js_gt js_quot)

lemma replacement_character_kept: "escape_char 0xFFFD = [0xFFFD]"
  by (simp add: escape_char_def)

lemma to_well_formed_Cons:
  "\<not> surrogate c \<Longrightarrow> to_well_formed (c # r) = c # to_well_formed r"
  by (cases r) (simp_all add: surrogate_def)

lemma to_well_formed_append:
  "\<forall>c\<in>set xs. \<not> surrogate c \<Longrightarrow> to_well_formed (xs @ r) = xs @ to_well_formed r"
  by (induction xs) (simp_all add: to_well_formed_Cons)

lemma to_well_formed_pair:
  "high_surrogate c \<Longrightarrow> low_surrogate d \<Longrightarrow>
   to_well_formed (c # d # r) = c # d # to_well_formed r"
  by simp

lemma to_well_formed_lone:
  assumes "surrogate c" and "high_surrogate c \<longrightarrow> r = [] \<or> \<not> low_surrogate (hd r)"
  shows "to_well_formed (c # r) = 0xFFFD # to_well_formed r"
  using assms by (cases r) auto

lemma hd_escaped_not_low:
  assumes "\<not> low_surrogate d"
  shows "\<not> low_surrogate (hd (escape_char d @ r))"
proof (cases "surrogate d")
  case True
  with assms show ?thesis by (simp add: escape_char_surrogate)
next
  case False
  from escape_char_not_empty [of d] obtain e es where e: "escape_char d = e # es"
    by (cases "escape_char d") auto
  with escape_char_no_surrogate [OF False] have "\<not> surrogate e" by simp
  with e show ?thesis by (simp add: surrogate_def)
qed

text \<open>
  Escaping and the passage through UTF-8 commute: the row holds the escaped form of the
  well-formed content.
\<close>

lemma to_well_formed_charwise:
  "to_well_formed (concat (map escape_char s)) = concat (map escape_char (to_well_formed s))"
proof (induction s rule: to_well_formed.induct)
  case 1
  show ?case by simp
next
  case (2 c)
  show ?case
  proof (cases "surrogate c")
    case True
    then show ?thesis by (simp add: escape_char_surrogate replacement_character_kept)
  next
    case False
    with to_well_formed_append [OF escape_char_no_surrogate [OF False], of "[]"]
    show ?thesis by simp
  qed
next
  case (3 c d cs)
  show ?case
  proof (cases "high_surrogate c \<and> low_surrogate d")
    case True
    then have "surrogate c" and "surrogate d" by (simp_all add: surrogate_def)
    with True "3.IH"(1) show ?thesis by (simp add: escape_char_surrogate)
  next
    case pair: False
    show ?thesis
    proof (cases "surrogate c")
      case True
      have "high_surrogate c \<longrightarrow>
            escape_char d @ concat (map escape_char cs) = [] \<or>
            \<not> low_surrogate (hd (escape_char d @ concat (map escape_char cs)))"
        using pair hd_escaped_not_low [of d] by simp
      from to_well_formed_lone [OF True this] True pair "3.IH"(2) show ?thesis
        by (auto simp add: escape_char_surrogate replacement_character_kept)
    next
      case False
      with pair "3.IH"(3)
        to_well_formed_append [OF escape_char_no_surrogate [OF False],
          of "concat (map escape_char (d # cs))"]
      show ?thesis by auto
    qed
  qed
qed

lemma to_well_formed_escape_content:
  "to_well_formed (escape_content s) = escape_content (to_well_formed s)"
  by (simp add: escape_content_charwise to_well_formed_charwise)

lemma escaped_at_rest_to_well_formed: "escaped_at_rest (to_well_formed (escape_content s))"
  by (simp add: to_well_formed_escape_content escaped_at_rest_escape_content)

section \<open>Properties of \<open>sanitizeComment\<close> and the comment route\<close>

lemma get_prop_object:
  "get_prop (JObj kvs) k = Inr (case map_of kvs k of None \<Rightarrow> JUndefined | Some x \<Rightarrow> x)"
  by (simp add: get_prop_def)

lemma get_prop_set_prop: "get_prop (set_prop (JObj kvs) k x) k = Inr x"
  by (simp add: get_prop_def set_prop_def update_conv')

lemma sanitizeComment_string:
  assumes "body req = JObj kvs" and "map_of kvs (js ''content'') = Some (JStr s)" and "s \<noteq> []"
  shows "sanitizeComment req =
         Next (req\<lparr>body := set_prop (JObj kvs) (js ''content'') (JStr (escape_content s))\<rparr>)"
  using assms
  by (simp add: sanitizeComment_def get_prop_object length_of_def strictly_zero_def
      number_of_nat_def logical_not_def)

lemma post_comment_string:
  assumes "body req = JObj kvs" and "map_of kvs (js ''content'') = Some (JStr s)" and "s \<noteq> []"
  shows "post_comment db req =
         comment_handler db
           (req\<lparr>body := set_prop (JObj kvs) (js ''content'') (JStr (escape_content s))\<rparr>)"
  by (simp add: post_comment_def sanitizeComment_string [OF assms])

lemma escape_quoted_ampersand:
  "concat (map escape_char (js ''\"&\"'')) = js ''&quot;&amp;&quot;''"
  by (simp add: escape_char_def js_def)

text \<open>
  C2. The Content Sanitizer replaces \<open>&\<close> first and \<open><\<close>, \<open>>\<close>, \<open>"\<close> after it, so
  every character of the content is escaped once and the \<open>&\<close> written by the later
  replacements is not escaped again: \<open>sanitizeComment\<close> passes the request on with the
  content replaced, character by character, by the escape sequence of each character.
  Sanitizing \<open>&<\<close> yields exactly \<open>&amp;&lt;\<close>, which is not \<open>&amp;lt;\<close>.
\<close>

theorem ampersand_first_escapes_once:
  assumes "body req = JObj kvs" and "map_of kvs (js ''content'') = Some (JStr s)" and "s \<noteq> []"
  shows "sanitizeComment req =
           Next (req\<lparr>body := set_prop (JObj kvs) (js ''content'')
                                (JStr (concat (map escape_char s)))\<rparr>) \<and>
         escape_content s = concat (map escape_char s) \<and>
         sanitizeComment \<lparr>body = JObj [(js ''content'', JStr (js ''&<''))]\<rparr> =
           Next \<lparr>body = JObj [(js ''content'', JStr (js ''&amp;&lt;''))]\<rparr> \<and>
         escape_content (js ''&<'') = js ''&amp;&lt;'' \<and>
         js ''&amp;&lt;'' \<noteq> js ''&amp;lt;''"
proof -
  have general: "sanitizeComment req =
      Next (req\<lparr>body := set_prop (JObj kvs) (js ''content'')
                           (JStr (concat (map escape_char s)))\<rparr>)"
    using sanitizeComment_string [OF assms] by (simp add: escape_content_charwise)
  have "js ''&<'' \<noteq> []"
    by (simp add: js_def)
  from sanitizeComment_string
    [of "\<lparr>body = JObj [(js ''content'', JStr (js ''&<''))]\<rparr>"
        "[(js ''content'', JStr (js ''&<''))]" "js ''&<''", OF _ _ this]
  have at_input: "sanitizeComment \<lparr>body = JObj [(js ''content'', JStr (js ''&<''))]\<rparr> =
      Next \<lparr>body = JObj [(js ''content'', JStr (js ''&amp;&lt;''))]\<rparr>"
    by (simp add: escape_ampersand_less set_prop_def)
  have differ: "js ''&amp;&lt;'' \<noteq> js ''&amp;lt;''"
    by (simp add: js_def)
  from general at_input differ show ?thesis
    by (simp add: escape_content_charwise [of s] escape_ampersand_less)
qed

theorem ampersand_first_escapes_once_witness:
  "sanitizeComment \<lparr>body = JObj [(js ''content'', JStr (js ''\"&\"''))]\<rparr> =
     Next \<lparr>body = JObj [(js ''content'', JStr (js ''&quot;&amp;&quot;''))]\<rparr> \<and>
   escape_content (js ''\"&\"'') = js ''&quot;&amp;&quot;''"
proof -
  have n: "js ''\"&\"'' \<noteq> []"
    by (simp add: js_def)
  show ?thesis
    using ampersand_first_escapes_once
      [of "\<lparr>body = JObj [(js ''content'', JStr (js ''\"&\"''))]\<rparr>"
          "[(js ''content'', JStr (js ''\"&\"''))]" "js ''\"&\"''", OF _ _ n]
    by (simp add: escape_quoted_ampersand set_prop_def)
qed

lemma comment_handler_calls:
  "get_prop (body req) (js ''content'') = Inr c \<Longrightarrow>
   calls (comment_handler db req) = [DbRun (js ''INSERT INTO comments (content) VALUES (?)'') [c]]"
  by (simp add: comment_handler_def split: option.splits)

lemma comment_handler_stores:
  "get_prop (body req) (js ''content'') = Inr c \<Longrightarrow> failure db = None \<Longrightarrow>
   comments (db_after (comment_handler db req)) =
     comments db @ [\<lparr>comment_id = next_comment_id db, comment_content = text_at_rest c\<rparr>]"
  by (simp add: comment_handler_def)

lemma escape_bold: "escape_content (js ''<b>hi</b>'') = js ''&lt;b&gt;hi&lt;/b&gt;''"
  by (simp add: escape_content_def replace_all_def js_def)

text \<open>The injection property of the specification.\<close>

lemma escape_script:
  "escape_content (js ''<script>alert(\"x\")</script>'') =
   js ''&lt;script&gt;alert(&quot;x&quot;)&lt;/script&gt;''"
  by (simp add: escape_content_def replace_all_def js_def)

lemma sample_store_fields:
  "failure sample_store = None"
  "next_comment_id sample_store = 2"
  "comments sample_store = [\<lparr>comment_id = 1, comment_content = JStr (js ''first'')\<rparr>]"
  by (simp_all add: sample_store_def sample_store_with_def next_comment_id_def)

lemma escape_lone_surrogate:
  "escape_content [0x61, 0xD800, 0x3C] = 0x61 # 0xD800 # js ''&lt;''"
  by (simp add: escape_content_def replace_all_def js_def)

lemma plain_text_at_rest:
  "to_well_formed (js ''<b>hi</b>'') = js ''<b>hi</b>''"
  "to_well_formed (js ''&lt;b&gt;hi&lt;/b&gt;'') = js ''&lt;b&gt;hi&lt;/b&gt;''"
  by (simp_all add: js_def surrogate_def high_surrogate_def low_surrogate_def)

text \<open>
  C1, as the claim states it: the value persisted is the output of the sanitizer. For
  the content \<open>a\<close>, an unpaired surrogate \<open>U+D800\<close>, \<open><\<close>, the sanitizer passes on and
  its output keeps the surrogate, while the row that the store then holds has U+FFFD
  in its place: the persisted value is not the output of the sanitizer.
\<close>

theorem stored_row_differs_from_sanitizer_output:
  "sanitizeComment \<lparr>body = JObj [(js ''content'', JStr [0x61, 0xD800, 0x3C])]\<rparr> =
     Next \<lparr>body = JObj [(js ''content'', JStr (0x61 # 0xD800 # js ''&lt;''))]\<rparr> \<and>
   comments (db_after (post_comment sample_store
       \<lparr>body = JObj [(js ''content'', JStr [0x61, 0xD800, 0x3C])]\<rparr>)) =
     [\<lparr>comment_id = 1, comment_content = JStr (js ''first'')\<rparr>,
      \<lparr>comment_id = 2, comment_content = JStr (0x61 # 0xFFFD # js ''&lt;'')\<rparr>] \<and>
   JStr (0x61 # 0xFFFD # js ''&lt;'') \<noteq> JStr (0x61 # 0xD800 # js ''&lt;'')"
proof -
  have k: "map_of [(js ''content'', JStr [0x61, 0xD800, 0x3C])] (js ''content'') =
           Some (JStr [0x61, 0xD800, 0x3C])"
    by simp
  have n: "[0x61, 0xD800, 0x3C] \<noteq> ([] :: jsstring)"
    by simp
  let ?req = "\<lparr>body = JObj [(js ''content'', JStr [0x61, 0xD800, 0x3C])]\<rparr>"
  let ?req' = "?req\<lparr>body := set_prop (JObj [(js ''content'', JStr [0x61, 0xD800, 0x3C])])
                 (js ''content'') (JStr (escape_content [0x61, 0xD800, 0x3C]))\<rparr>"
  have pass: "sanitizeComment ?req = Next ?req'"
    by (rule sanitizeComment_string [OF _ k n]) simp
  have read: "get_prop (body ?req') (js ''content'') = Inr (JStr (escape_content [0x61, 0xD800, 0x3C]))"
    by (simp add: get_prop_set_prop)
  have run: "post_comment sample_store ?req = comment_handler sample_store ?req'"
    by (rule post_comment_string [OF _ k n]) simp
  from comment_handler_stores [OF read sample_store_fields(1)] pass show ?thesis
    unfolding run
    by (simp add: sample_store_fields escape_lone_surrogate text_at_rest_def set_prop_def
        js_def surrogate_def high_surrogate_def low_surrogate_def)
qed

text \<open>
  C1, amended. When the request carries a non-empty string as \<open>content\<close>, the
  sanitizer passes the request on with the content replaced by its escaped form, and
  the parameter of the INSERT is that escaped string. The row that the store adds holds
  it as UTF-8 text keeps it: with each unpaired surrogate replaced by U+FFFD, which is
  the escaped form of the well-formed content, and the escaped string itself when the
  content has no unpaired surrogate. The row has no \<open><\<close>, \<open>>\<close> or \<open>"\<close>, and each \<open>&\<close>
  in it starts one of \<open>&amp;\<close>, \<open>&lt;\<close>, \<open>&gt;\<close>, \<open>&quot;\<close>.
\<close>

theorem stored_content_is_sanitizer_output:
  assumes "body req = JObj kvs" and "map_of kvs (js ''content'') = Some (JStr s)" and "s \<noteq> []"
  shows "sanitizeComment req =
           Next (req\<lparr>body := set_prop (JObj kvs) (js ''content'') (JStr (escape_content s))\<rparr>) \<and>
         calls (post_comment db req) =
           [DbRun (js ''INSERT INTO comments (content) VALUES (?)'') [JStr (escape_content s)]] \<and>
         (failure db = None \<longrightarrow>
            comments (db_after (post_comment db req)) =
              comments db @ [\<lparr>comment_id = next_comment_id db,
                              comment_content = JStr (to_well_formed (escape_content s))\<rparr>]) \<and>
         to_well_formed (escape_content s) = escape_content (to_well_formed s) \<and>
         (to_well_formed s = s \<longrightarrow> to_well_formed (escape_content s) = escape_content s) \<and>
         escaped_at_rest (to_well_formed (escape_content s))"
proof -
  let ?req' = "req\<lparr>body := set_prop (JObj kvs) (js ''content'') (JStr (escape_content s))\<rparr>"
  have read: "get_prop (body ?req') (js ''content'') = Inr (JStr (escape_content s))"
    by (simp add: get_prop_set_prop)
  have run: "post_comment db req = comment_handler db ?req'"
    by (rule post_comment_string [OF assms])
  show ?thesis
    using sanitizeComment_string [OF assms] comment_handler_calls [OF read, of db]
      comment_handler_stores [OF read, of db] escaped_at_rest_to_well_formed [of s]
      to_well_formed_escape_content [of s]
    by (simp add: run text_at_rest_def)
qed

theorem stored_content_is_sanitizer_output_witness:
  "calls (post_comment sample_store \<lparr>body = JObj [(js ''content'', JStr (js ''<b>hi</b>''))]\<rparr>) =
     [DbRun (js ''INSERT INTO comments (content) VALUES (?)'') [JStr (js ''&lt;b&gt;hi&lt;/b&gt;'')]] \<and>
   comments (db_after (post_comment sample_store
       \<lparr>body = JObj [(js ''content'', JStr (js ''<b>hi</b>''))]\<rparr>)) =
     [\<lparr>comment_id = 1, comment_content = JStr (js ''first'')\<rparr>,
      \<lparr>comment_id = 2, comment_content = JStr (js ''&lt;b&gt;hi&lt;/b&gt;'')\<rparr>] \<and>
   escaped_at_rest (js ''&lt;b&gt;hi&lt;/b&gt;'')"
proof -
  have k: "map_of [(js ''content'', JStr (js ''<b>hi</b>''))] (js ''content'') =
           Some (JStr (js ''<b>hi</b>''))"
    by simp
  have n: "js ''<b>hi</b>'' \<noteq> []"
    by (simp add: js_def)
  show ?thesis
    using stored_content_is_sanitizer_output
      [of "\<lparr>body = JObj [(js ''content'', JStr (js ''<b>hi</b>''))]\<rparr>"
          "[(js ''content'', JStr (js ''<b>hi</b>''))]" "js ''<b>hi</b>''" sample_store, OF _ k n]
    by (simp add: escape_bold sample_store_fields plain_text_at_rest)
qed

text \<open>
  The invariant at rest: whatever the request, the comment route leaves a store of
  escaped comments a store of escaped comments.
\<close>

lemma sanitizeComment_Next_string:
  assumes "sanitizeComment req = Next req'"
  shows "\<exists>s. get_prop (body req') (js ''content'') = Inr (JStr (escape_content s))"
proof -
  from assms obtain c where c: "get_prop (body req) (js ''content'') = Inr c"
    by (auto simp add: sanitizeComment_def split: sum.splits)
  with assms obtain s where s: "c = JStr s"
    and r: "req' = req\<lparr>body := set_prop (body req) (js ''content'') (JStr (escape_content s))\<rparr>"
    by (auto simp add: sanitizeComment_def split: if_splits jsval.splits)
  from c s obtain kvs where b: "body req = JObj kvs"
    by (cases "body req") (auto simp add: get_prop_def)
  show ?thesis
    using r b by (auto simp add: get_prop_set_prop)
qed

lemma comments_stay_escaped:
  assumes "list_all stored_escaped (comments db)"
  shows "list_all stored_escaped (comments (db_after (post_comment db req)))"
proof (cases "sanitizeComment req")
  case (Next req')
  from sanitizeComment_Next_string [OF Next] obtain s
    where "get_prop (body req') (js ''content'') = Inr (JStr (escape_content s))"
    by blast
  with assms Next escaped_at_rest_escape_content [of "to_well_formed s"] show ?thesis
    by (simp add: post_comment_def comment_handler_def stored_escaped_def text_at_rest_def
        to_well_formed_escape_content split: option.splits)
next
  case (Reply r)
  with assms show ?thesis by (simp add: post_comment_def no_store_access_def)
next
  case (Throw e)
  with assms show ?thesis by (simp add: post_comment_def no_store_access_def)
qed

text \<open>
  Content that is absent, \<open>null\<close> or the empty string is answered with 400 and the
  reason \<open>Comment cannot be empty\<close> whenever the request has a body to read it from, be
  it an object or an array; the route makes no call to the store and leaves it as it
  was.
\<close>

lemma empty_or_absent_content_rejected:
  assumes "get_prop (body req) (js ''content'') = Inr c"
    and "c = JUndefined \<or> c = JNull \<or> c = JStr []"
  shows "sanitizeComment req =
           Reply \<lparr>status = 400, payload = error_json ''Comment cannot be empty''\<rparr> \<and>
         post_comment db req =
           \<lparr>reply = Sent \<lparr>status = 400, payload = error_json ''Comment cannot be empty''\<rparr>,
            calls = [], db_after = db\<rparr>"
proof -
  from assms have "sanitizeComment req =
      Reply \<lparr>status = 400, payload = error_json ''Comment cannot be empty''\<rparr>"
    by (auto simp add: sanitizeComment_def logical_not_def)
  then show ?thesis
    by (simp add: post_comment_def no_store_access_def)
qed

lemma empty_string_content_rejected:
  "post_comment db \<lparr>body = JObj [(js ''content'', JStr [])]\<rparr> =
     \<lparr>reply = Sent \<lparr>status = 400, payload = error_json ''Comment cannot be empty''\<rparr>,
      calls = [], db_after = db\<rparr>"
  by (rule empty_or_absent_content_rejected [THEN conjunct2, of _ "JStr []"])
     (simp_all add: get_prop_object)

lemma content_absent_from_object_or_array_rejected:
  "post_comment db \<lparr>body = JObj []\<rparr> =
     \<lparr>reply = Sent \<lparr>status = 400, payload = error_json ''Comment cannot be empty''\<rparr>,
      calls = [], db_after = db\<rparr>"
  "post_comment db \<lparr>body = JArr xs\<rparr> =
     \<lparr>reply = Sent \<lparr>status = 400, payload = error_json ''Comment cannot be empty''\<rparr>,
      calls = [], db_after = db\<rparr>"
  by (rule empty_or_absent_content_rejected [THEN conjunct2, of _ JUndefined],
      simp_all add: get_prop_def)+

text \<open>
  Whatever the shape of the request, content that is absent or empty never reaches the
  store: no call is made and the store stays as it was.
\<close>

lemma empty_or_absent_content_never_stored:
  assumes "get_prop (body req) (js ''content'') = Inl e \<or>
           get_prop (body req) (js ''content'') = Inr JUndefined \<or>
           get_prop (body req) (js ''content'') = Inr JNull \<or>
           get_prop (body req) (js ''content'') = Inr (JStr [])"
  shows "calls (post_comment db req) = [] \<and> db_after (post_comment db req) = db"
  using assms
  by (auto simp add: post_comment_def sanitizeComment_def logical_not_def no_store_access_def)

text \<open>
  C5, at a submission without a body. The request carries no content at all, and
  \<open>req.body\<close> is \<open>undefined\<close>: line 48 destructures it before any test, a TypeError
  leaves the sanitizer, and the request ends without the answer 400
  \<open>Comment cannot be empty\<close>. The store is not touched.
\<close>

theorem comment_without_body_throws:
  "sanitizeComment \<lparr>body = JUndefined\<rparr> = Throw TypeError \<and>
   post_comment db \<lparr>body = JUndefined\<rparr> =
     \<lparr>reply = Raised TypeError, calls = [], db_after = db\<rparr>"
proof -
  have "sanitizeComment \<lparr>body = JUndefined\<rparr> = Throw TypeError"
    by (simp add: sanitizeComment_def get_prop_def)
  then show ?thesis
    by (simp add: post_comment_def no_store_access_def)
qed

section \<open>Properties of \<open>validateUserId\<close> and the lookup route\<close>

subsection \<open>Strings of digits are numeric literals\<close>

lemma DecimalDigit_not_space: "DecimalDigit c \<Longrightarrow> \<not> StrWhiteSpaceChar c"
  by (auto simp add: DecimalDigit_def StrWhiteSpaceChar_def word_le_nat_alt)

lemma DecimalDigit_not_sign: "DecimalDigit c \<Longrightarrow> c \<noteq> 0x2B \<and> c \<noteq> 0x2D"
  by (auto simp add: DecimalDigit_def)

lemma trim_unchanged:
  assumes "s \<noteq> []" and "\<not> StrWhiteSpaceChar (hd s)" and "\<not> StrWhiteSpaceChar (last s)"
  shows "trim s = s"
proof -
  from assms have a: "dropWhile StrWhiteSpaceChar s = s"
    by (simp add: dropWhile_eq_self_iff)
  from assms have "dropWhile StrWhiteSpaceChar (rev s) = rev s"
    by (simp add: dropWhile_eq_self_iff hd_rev)
  with a show ?thesis by (simp add: trim_def)
qed

lemma digits_hd_last:
  assumes "digits DecimalDigit s"
  shows "DecimalDigit (hd s) \<and> DecimalDigit (last s)"
  using assms by (cases s) (auto simp add: digits_def list_all_iff)

lemma trim_digits: "digits DecimalDigit s \<Longrightarrow> trim s = s"
  using digits_hd_last [of s] DecimalDigit_not_space
  by (intro trim_unchanged) (auto simp add: digits_def)

lemma digits_unsigned_literal:
  assumes "digits DecimalDigit s"
  shows "StrUnsignedDecimalLiteral s"
proof -
  from assms have t: "takeWhile DecimalDigit s = s" and d: "dropWhile DecimalDigit s = []"
    by (simp_all add: digits_def list_all_iff)
  from assms have "s \<noteq> []" by (simp add: digits_def)
  then show ?thesis
    by (simp add: StrUnsignedDecimalLiteral_def t d)
qed

lemma digits_numeric_literal:
  assumes "digits DecimalDigit s"
  shows "StringNumericLiteral s"
proof -
  from assms obtain c r where s: "s = c # r" and c: "DecimalDigit c"
    by (cases s) (auto simp add: digits_def)
  from c s digits_unsigned_literal [OF assms] have "StrDecimalLiteral s"
    using DecimalDigit_not_sign [of c] by (simp add: StrDecimalLiteral_def)
  then show ?thesis
    by (simp add: StringNumericLiteral_def trim_digits [OF assms] StrNumericLiteral_def)
qed

subsection \<open>What an accepted request does\<close>

lemma validateUserId_nonzero_integer:
  assumes "body req = JObj kvs" and "map_of kvs (js ''id'') = Some (JNum (number_of_int i))"
    and "i \<noteq> 0"
  shows "validateUserId req = Next req"
  using assms
  by (simp add: validateUserId_def get_prop_object logical_not_def isNaN_def number_of_int_def)

lemma validateUserId_digits:
  assumes "body req = JObj kvs" and "map_of kvs (js ''id'') = Some (JStr s)"
    and "digits DecimalDigit s"
  shows "validateUserId req = Next req"
proof -
  from assms(3) have "s \<noteq> []" by (simp add: digits_def)
  with assms(1,2) digits_numeric_literal [OF assms(3)] show ?thesis
    by (simp add: validateUserId_def get_prop_object logical_not_def isNaN_def)
qed

lemma user_handler_calls:
  "get_prop (body req) (js ''id'') = Inr v \<Longrightarrow>
   calls (user_handler db req) = [DbGet (js ''SELECT id, name FROM users WHERE id = ?'') [v]]"
  by (simp add: user_handler_def)

lemma validateUserId_Next:
  assumes "validateUserId req = Next req'"
  shows "req' = req \<and> (\<exists>v. get_prop (body req) (js ''id'') = Inr v \<and> truthy v \<and> isNaN v = Inr False)"
  using assms
  by (auto simp add: validateUserId_def logical_not_def split: sum.splits if_splits)

lemma post_user_accepted:
  assumes "validateUserId req = Next req'" and "get_prop (body req) (js ''id'') = Inr v"
  shows "post_user db req = user_handler db req"
    and "calls (post_user db req) = [DbGet (js ''SELECT id, name FROM users WHERE id = ?'') [v]]"
  using assms validateUserId_Next [OF assms(1)]
  by (simp_all add: post_user_def user_handler_calls)

lemma accepted_reaches_store:
  assumes "validateUserId \<lparr>body = JObj [(js ''id'', v)]\<rparr> =
           Next \<lparr>body = JObj [(js ''id'', v)]\<rparr>"
  shows "calls (post_user db \<lparr>body = JObj [(js ''id'', v)]\<rparr>) =
         [DbGet (js ''SELECT id, name FROM users WHERE id = ?'') [v]]"
  by (rule post_user_accepted(2) [OF assms]) (simp add: get_prop_object)

subsection \<open>What is rejected\<close>

lemma invalid_id_rejected:
  assumes "body req = JObj kvs"
    and "map_of kvs (js ''id'') = None \<or>
         (\<exists>v. map_of kvs (js ''id'') = Some v \<and> (logical_not v \<or> isNaN v = Inr True))"
  shows "post_user db req =
         \<lparr>reply = Sent \<lparr>status = 400, payload = error_json ''Invalid ID''\<rparr>,
          calls = [], db_after = db\<rparr>"
proof -
  from assms have "validateUserId req = Reply \<lparr>status = 400, payload = error_json ''Invalid ID''\<rparr>"
    by (auto simp add: validateUserId_def get_prop_object logical_not_def)
  then show ?thesis by (simp add: post_user_def no_store_access_def)
qed

lemma number_zero_rejected:
  "post_user db \<lparr>body = JObj [(js ''id'', JNum (number_of_int 0))]\<rparr> =
     \<lparr>reply = Sent \<lparr>status = 400, payload = error_json ''Invalid ID''\<rparr>,
      calls = [], db_after = db\<rparr>"
  by (rule invalid_id_rejected [of _ "[(js ''id'', JNum (number_of_int 0))]"])
     (simp_all add: logical_not_def number_of_int_def)

subsection \<open>The identifier reaches the lookup as submitted\<close>

lemma text_three_accepted:
  "validateUserId \<lparr>body = JObj [(js ''id'', JStr (js ''3''))]\<rparr> =
   Next \<lparr>body = JObj [(js ''id'', JStr (js ''3''))]\<rparr>"
  by (rule validateUserId_digits [of _ "[(js ''id'', JStr (js ''3''))]" "js ''3''"])
     (simp_all add: js_def digits_def DecimalDigit_def)

text \<open>
  C3, as the claim states it: every numeric input is accepted and the lookup receives
  the parsed identifier. The validator parses nothing and the handler reads the field
  again: for the string \<open>3\<close> the parameter of the lookup is the string \<open>3\<close>, not the
  Number 3. And the Number 0, numeric as it is, is rejected by the test \<open>!id\<close>.
\<close>

theorem lookup_receives_submitted_text_unparsed:
  "calls (post_user sample_store \<lparr>body = JObj [(js ''id'', JStr (js ''3''))]\<rparr>) =
     [DbGet (js ''SELECT id, name FROM users WHERE id = ?'') [JStr (js ''3'')]] \<and>
   JStr (js ''3'') \<noteq> JNum (number_of_int 3) \<and>
   post_user sample_store \<lparr>body = JObj [(js ''id'', JNum (number_of_int 0))]\<rparr> =
     \<lparr>reply = Sent \<lparr>status = 400, payload = error_json ''Invalid ID''\<rparr>,
      calls = [], db_after = sample_store\<rparr>"
  using accepted_reaches_store [OF text_three_accepted, of sample_store]
    number_zero_rejected [of sample_store]
  by simp

text \<open>
  C3, amended. A Number that is an integer other than 0 (so every positive integer)
  and a string of decimal digits are accepted: the validator calls \<open>next()\<close> with the
  request unchanged, and the parameter of the lookup is the submitted value itself,
  unparsed: a string stays a string, a Number stays a Number. The Number 0 is answered
  with 400 \<open>Invalid ID\<close> before any lookup.
\<close>

theorem numeric_identifier_accepted_and_forwarded:
  assumes "body req = JObj kvs" and "map_of kvs (js ''id'') = Some v"
    and "v = JNum (number_of_int i) \<and> i \<noteq> 0 \<or> v = JStr s \<and> digits DecimalDigit s"
  shows "validateUserId req = Next req \<and>
         calls (post_user db req) =
           [DbGet (js ''SELECT id, name FROM users WHERE id = ?'') [v]] \<and>
         post_user db \<lparr>body = JObj [(js ''id'', JNum (number_of_int 0))]\<rparr> =
           \<lparr>reply = Sent \<lparr>status = 400, payload = error_json ''Invalid ID''\<rparr>,
            calls = [], db_after = db\<rparr>"
proof -
  from assms have n: "validateUserId req = Next req"
    by (auto intro: validateUserId_nonzero_integer validateUserId_digits)
  from assms have "get_prop (body req) (js ''id'') = Inr v"
    by (simp add: get_prop_object)
  from post_user_accepted(2) [OF n this] n number_zero_rejected [of db] show ?thesis
    by simp
qed

theorem numeric_identifier_accepted_and_forwarded_witness:
  "validateUserId \<lparr>body = JObj [(js ''id'', JStr (js ''3''))]\<rparr> =
     Next \<lparr>body = JObj [(js ''id'', JStr (js ''3''))]\<rparr> \<and>
   calls (post_user sample_store \<lparr>body = JObj [(js ''id'', JStr (js ''3''))]\<rparr>) =
     [DbGet (js ''SELECT id, name FROM users WHERE id = ?'') [JStr (js ''3'')]] \<and>
   validateUserId \<lparr>body = JObj [(js ''id'', JNum (number_of_int 7))]\<rparr> =
     Next \<lparr>body = JObj [(js ''id'', JNum (number_of_int 7))]\<rparr> \<and>
   calls (post_user sample_store \<lparr>body = JObj [(js ''id'', JNum (number_of_int 7))]\<rparr>) =
     [DbGet (js ''SELECT id, name FROM users WHERE id = ?'') [JNum (number_of_int 7)]]"
proof -
  have d: "digits DecimalDigit (js ''3'')"
    by (simp add: js_def digits_def DecimalDigit_def)
  show ?thesis
    using numeric_identifier_accepted_and_forwarded
        [of "\<lparr>body = JObj [(js ''id'', JStr (js ''3''))]\<rparr>" "[(js ''id'', JStr (js ''3''))]"
            "JStr (js ''3'')" 0 "js ''3''" sample_store]
      numeric_identifier_accepted_and_forwarded
        [of "\<lparr>body = JObj [(js ''id'', JNum (number_of_int 7))]\<rparr>"
            "[(js ''id'', JNum (number_of_int 7))]" "JNum (number_of_int 7)" 7 "[]" sample_store]
      d
    by simp
qed

subsection \<open>Digits with trailing garbage\<close>

text \<open>
  No partial numeric prefix is accepted: digits followed by trailing garbage are not a
  numeric literal, and the request ends with 400 before any lookup.
\<close>

lemma trim_digits_garbage:
  assumes "digits DecimalDigit ds" and "\<not> StrWhiteSpaceChar c"
  shows "trim (ds @ c # g) = ds @ c # rev (dropWhile StrWhiteSpaceChar (rev g))"
proof -
  from assms(1) obtain d ds' where ds: "ds = d # ds'" and d: "DecimalDigit d"
    by (cases ds) (auto simp add: digits_def)
  from d have "\<not> StrWhiteSpaceChar d" by (rule DecimalDigit_not_space)
  then have "dropWhile StrWhiteSpaceChar (ds @ c # g) = ds @ c # g"
    by (simp add: ds)
  moreover have "dropWhile StrWhiteSpaceChar (rev g @ c # rev ds) =
                 dropWhile StrWhiteSpaceChar (rev g) @ c # rev ds"
    using assms(2) by (rule dropWhile_append3)
  ultimately show ?thesis by (simp add: trim_def)
qed

lemma DecimalDigit_not_letter:
  "DecimalDigit c \<Longrightarrow> c \<notin> set [0x2E, 0x65, 0x45, 0x62, 0x42, 0x6F, 0x4F, 0x78, 0x58, 0x49]"
  by (auto simp add: DecimalDigit_def)

lemma digits_garbage_not_literal:
  assumes "digits DecimalDigit ds" and "garbage_char c"
  shows "\<not> StrNumericLiteral (ds @ c # g)"
proof -
  from assms(1) obtain d ds' where ds: "ds = d # ds'" and d: "DecimalDigit d"
    and all: "\<forall>x\<in>set ds. DecimalDigit x"
    by (cases ds) (auto simp add: digits_def list_all_iff)
  from assms(2) have c: "\<not> DecimalDigit c" "c \<noteq> 0x2E" "c \<noteq> 0x65" "c \<noteq> 0x45"
    and p: "c \<notin> set [0x62, 0x42, 0x6F, 0x4F, 0x78, 0x58]"
    by (simp_all add: garbage_char_def)
  have t: "takeWhile DecimalDigit (ds @ c # g) = ds"
    using all c(1) by (simp add: takeWhile_append2)
  have r: "dropWhile DecimalDigit (ds @ c # g) = c # g"
    using all c(1) by (simp add: dropWhile_append2)
  have i: "ds @ c # g \<noteq> js ''Infinity''"
    using DecimalDigit_not_letter [OF d] by (auto simp add: ds js_def)
  have u: "\<not> StrUnsignedDecimalLiteral (ds @ c # g)"
    unfolding StrUnsignedDecimalLiteral_def t r using i c
    by (simp add: ExponentPart_def)
  have dec: "\<not> StrDecimalLiteral (ds @ c # g)"
    using u DecimalDigit_not_sign [OF d] by (simp add: StrDecimalLiteral_def ds)
  have non: "\<not> NonDecimalIntegerLiteral (ds @ c # g)"
  proof (cases ds')
    case Nil
    with p show ?thesis by (simp add: NonDecimalIntegerLiteral_def ds)
  next
    case (Cons d2 ds'')
    with all ds have "DecimalDigit d2" by simp
    from DecimalDigit_not_letter [OF this] Cons show ?thesis
      by (simp add: NonDecimalIntegerLiteral_def ds)
  qed
  from dec non show ?thesis by (simp add: StrNumericLiteral_def)
qed

lemma numeric_prefix_with_garbage_is_not_numeric:
  assumes "digits DecimalDigit ds" and "garbage_char c"
  shows "\<not> StringNumericLiteral (ds @ c # g)"
proof -
  from assms(2) have "\<not> StrWhiteSpaceChar c" by (simp add: garbage_char_def)
  from trim_digits_garbage [OF assms(1) this, of g]
    digits_garbage_not_literal [OF assms, of "rev (dropWhile StrWhiteSpaceChar (rev g))"]
  show ?thesis by (simp add: StringNumericLiteral_def)
qed

lemma trailing_garbage_rejected:
  assumes "digits DecimalDigit ds" and "garbage_char c"
  shows "post_user db \<lparr>body = JObj [(js ''id'', JStr (ds @ c # g))]\<rparr> =
         \<lparr>reply = Sent \<lparr>status = 400, payload = error_json ''Invalid ID''\<rparr>,
          calls = [], db_after = db\<rparr>"
  using numeric_prefix_with_garbage_is_not_numeric [OF assms, of g]
  by (intro invalid_id_rejected [where kvs = "[(js ''id'', JStr (ds @ c # g))]"])
     (simp_all add: isNaN_def)

subsection \<open>Values that pass through the coercions of \<open>isNaN\<close>\<close>

lemma accepts_string:
  "s \<noteq> [] \<Longrightarrow> StringNumericLiteral s \<Longrightarrow>
   validateUserId \<lparr>body = JObj [(js ''id'', JStr s)]\<rparr> =
   Next \<lparr>body = JObj [(js ''id'', JStr s)]\<rparr>"
  by (simp add: validateUserId_def get_prop_object logical_not_def isNaN_def)

lemma white_space_is_zero: "js '' '' \<noteq> [] \<and> StringNumericLiteral (js '' '')"
  by (simp add: StringNumericLiteral_def trim_def js_def StrWhiteSpaceChar_def)

lemma literal_minus_five: "js ''-5'' \<noteq> [] \<and> StringNumericLiteral (js ''-5'')"
  by code_simp

lemma literal_fraction: "js ''3.5'' \<noteq> [] \<and> StringNumericLiteral (js ''3.5'')"
  by code_simp

lemma literal_hex: "js ''0x1A'' \<noteq> [] \<and> StringNumericLiteral (js ''0x1A'')"
  by code_simp

lemma literal_infinity: "js ''Infinity'' \<noteq> [] \<and> StringNumericLiteral (js ''Infinity'')"
  by code_simp

lemma literal_padded: "js '' 3 '' \<noteq> [] \<and> StringNumericLiteral (js '' 3 '')"
  by code_simp

lemma not_positive_integers:
  "\<not> positive_integer_text (js ''-5'') \<and> \<not> positive_integer_text (js ''3.5'') \<and>
   \<not> positive_integer_text (js ''0x1A'') \<and> \<not> positive_integer_text (js ''Infinity'') \<and>
   \<not> positive_integer_text (js '' 3 '') \<and> \<not> positive_integer_text (js '' '')"
  by code_simp

lemma true_and_empty_array_accepted:
  "validateUserId \<lparr>body = JObj [(js ''id'', JBool True)]\<rparr> =
   Next \<lparr>body = JObj [(js ''id'', JBool True)]\<rparr>"
  "validateUserId \<lparr>body = JObj [(js ''id'', JArr [])]\<rparr> =
   Next \<lparr>body = JObj [(js ''id'', JArr [])]\<rparr>"
  by (simp_all add: validateUserId_def get_prop_object logical_not_def isNaN_def
      StringNumericLiteral_def trim_def)

text \<open>
  C4, at inputs that are not numeric. The string of one space is no numeric literal,
  yet \<open>Number\<close> reads white space as 0, so \<open>isNaN\<close> is false, the validator calls
  \<open>next()\<close> and the lookup runs with the space as its parameter. The same happens for
  \<open>true\<close> (read as 1) and for the empty array (read as 0). The claim asks for the
  answer 400 \<open>Invalid ID\<close> and no operation on the store.
\<close>

theorem non_numeric_inputs_reach_store:
  "\<not> StrNumericLiteral (js '' '') \<and>
   validateUserId \<lparr>body = JObj [(js ''id'', JStr (js '' ''))]\<rparr> =
     Next \<lparr>body = JObj [(js ''id'', JStr (js '' ''))]\<rparr> \<and>
   calls (post_user db \<lparr>body = JObj [(js ''id'', JStr (js '' ''))]\<rparr>) =
     [DbGet (js ''SELECT id, name FROM users WHERE id = ?'') [JStr (js '' '')]] \<and>
   calls (post_user db \<lparr>body = JObj [(js ''id'', JBool True)]\<rparr>) =
     [DbGet (js ''SELECT id, name FROM users WHERE id = ?'') [JBool True]] \<and>
   calls (post_user db \<lparr>body = JObj [(js ''id'', JArr [])]\<rparr>) =
     [DbGet (js ''SELECT id, name FROM users WHERE id = ?'') [JArr []]]"
proof -
  have n: "\<not> StrNumericLiteral (js '' '')"
    by code_simp
  have a: "validateUserId \<lparr>body = JObj [(js ''id'', JStr (js '' ''))]\<rparr> =
     Next \<lparr>body = JObj [(js ''id'', JStr (js '' ''))]\<rparr>"
    using white_space_is_zero by (simp add: accepts_string)
  show ?thesis
    using n a accepted_reaches_store [OF a, of db] accepted_reaches_store [OF true_and_empty_array_accepted(1), of db]
      accepted_reaches_store [OF true_and_empty_array_accepted(2), of db]
    by simp
qed

text \<open>
  C10. The strings \<open>-5\<close>, \<open>3.5\<close>, \<open>0x1A\<close>, \<open>Infinity\<close> and \<open> 3 \<close> are not positive
  integers in decimal, and each of them passes the validator and is the parameter of
  the lookup that the route sends to the store.
\<close>

theorem loosely_numeric_strings_reach_store:
  "\<not> positive_integer_text (js ''-5'') \<and>
   calls (post_user db \<lparr>body = JObj [(js ''id'', JStr (js ''-5''))]\<rparr>) =
     [DbGet (js ''SELECT id, name FROM users WHERE id = ?'') [JStr (js ''-5'')]] \<and>
   \<not> positive_integer_text (js ''3.5'') \<and>
   calls (post_user db \<lparr>body = JObj [(js ''id'', JStr (js ''3.5''))]\<rparr>) =
     [DbGet (js ''SELECT id, name FROM users WHERE id = ?'') [JStr (js ''3.5'')]] \<and>
   \<not> positive_integer_text (js ''0x1A'') \<and>
   calls (post_user db \<lparr>body = JObj [(js ''id'', JStr (js ''0x1A''))]\<rparr>) =
     [DbGet (js ''SELECT id, name FROM users WHERE id = ?'') [JStr (js ''0x1A'')]] \<and>
   \<not> positive_integer_text (js ''Infinity'') \<and>
   calls (post_user db \<lparr>body = JObj [(js ''id'', JStr (js ''Infinity''))]\<rparr>) =
     [DbGet (js ''SELECT id, name FROM users WHERE id = ?'') [JStr (js ''Infinity'')]] \<and>
   \<not> positive_integer_text (js '' 3 '') \<and>
   calls (post_user db \<lparr>body = JObj [(js ''id'', JStr (js '' 3 ''))]\<rparr>) =
     [DbGet (js ''SELECT id, name FROM users WHERE id = ?'') [JStr (js '' 3 '')]]"
proof -
  have a: "validateUserId \<lparr>body = JObj [(js ''id'', JStr (js ''-5''))]\<rparr> =
           Next \<lparr>body = JObj [(js ''id'', JStr (js ''-5''))]\<rparr>"
    using literal_minus_five by (simp add: accepts_string)
  have b: "validateUserId \<lparr>body = JObj [(js ''id'', JStr (js ''3.5''))]\<rparr> =
           Next \<lparr>body = JObj [(js ''id'', JStr (js ''3.5''))]\<rparr>"
    using literal_fraction by (simp add: accepts_string)
  have c: "validateUserId \<lparr>body = JObj [(js ''id'', JStr (js ''0x1A''))]\<rparr> =
           Next \<lparr>body = JObj [(js ''id'', JStr (js ''0x1A''))]\<rparr>"
    using literal_hex by (simp add: accepts_string)
  have d: "validateUserId \<lparr>body = JObj [(js ''id'', JStr (js ''Infinity''))]\<rparr> =
           Next \<lparr>body = JObj [(js ''id'', JStr (js ''Infinity''))]\<rparr>"
    using literal_infinity by (simp add: accepts_string)
  have e: "validateUserId \<lparr>body = JObj [(js ''id'', JStr (js '' 3 ''))]\<rparr> =
           Next \<lparr>body = JObj [(js ''id'', JStr (js '' 3 ''))]\<rparr>"
    using literal_padded by (simp add: accepts_string)
  show ?thesis
    using not_positive_integers accepted_reaches_store [OF a, of db] accepted_reaches_store [OF b, of db]
      accepted_reaches_store [OF c, of db] accepted_reaches_store [OF d, of db]
      accepted_reaches_store [OF e, of db]
    by simp
qed

text \<open>
  C7, at inputs on which a validator neither passes the request on nor answers 400.
  For the content \<open>5\<close>, a Number, \<open>content.replace\<close> is not a function and
  \<open>sanitizeComment\<close> throws a TypeError. For an identifier that is an object with an
  own property \<open>toString\<close>, \<open>isNaN\<close> cannot convert it to a primitive and
  \<open>validateUserId\<close> throws a TypeError. No call to the store is made in either case.
\<close>

theorem validators_throw_on_some_inputs:
  "sanitizeComment \<lparr>body = JObj [(js ''content'', JNum (number_of_int 5))]\<rparr> = Throw TypeError \<and>
   post_comment db \<lparr>body = JObj [(js ''content'', JNum (number_of_int 5))]\<rparr> =
     \<lparr>reply = Raised TypeError, calls = [], db_after = db\<rparr> \<and>
   validateUserId \<lparr>body = JObj [(js ''id'', JObj [(js ''toString'', JNum (number_of_int 1))])]\<rparr> =
     Throw TypeError \<and>
   post_user db \<lparr>body = JObj [(js ''id'', JObj [(js ''toString'', JNum (number_of_int 1))])]\<rparr> =
     \<lparr>reply = Raised TypeError, calls = [], db_after = db\<rparr>"
proof -
  have s: "sanitizeComment \<lparr>body = JObj [(js ''content'', JNum (number_of_int 5))]\<rparr> =
           Throw TypeError"
    by (simp add: sanitizeComment_def get_prop_def number_of_int_def length_of_def
        strictly_zero_def logical_not_def)
  have v: "validateUserId
             \<lparr>body = JObj [(js ''id'', JObj [(js ''toString'', JNum (number_of_int 1))])]\<rparr> =
           Throw TypeError"
    by (simp add: validateUserId_def get_prop_def isNaN_def logical_not_def)
  show ?thesis
    by (simp add: s v post_comment_def post_user_def no_store_access_def)
qed

subsection \<open>The answer of the lookup\<close>

lemma lookup_of_first_id:
  "reply (post_user sample_store \<lparr>body = JObj [(js ''id'', JStr (js ''1''))]\<rparr>) =
   Sent \<lparr>status = 200,
         payload = Json (JArr [JObj [(js ''id'', JNum (number_of_int 1)),
                                     (js ''name'', JStr (js ''Ada Lovelace''))]])\<rparr>"
  by code_simp

lemma lookup_of_second_id:
  "reply (post_user sample_store \<lparr>body = JObj [(js ''id'', JStr (js ''2''))]\<rparr>) =
   Sent \<lparr>status = 200,
         payload = Json (JArr [JObj [(js ''id'', JNum (number_of_int 2)),
                                     (js ''name'', JStr (js ''Alan Turing''))]])\<rparr>"
  by code_simp

lemma lookup_of_missing_id:
  "reply (post_user sample_store \<lparr>body = JObj [(js ''id'', JStr (js ''9''))]\<rparr>) =
   Sent \<lparr>status = 200, payload = Json (JArr [])\<rparr>"
  by code_simp

lemma lookup_in_failing_store:
  "reply (post_user failing_store \<lparr>body = JObj [(js ''id'', JStr (js ''2''))]\<rparr>) =
   Sent \<lparr>status = 500,
         payload = Json (JObj [(js ''error'', JStr (js ''SQLITE_BUSY: database is locked''))])\<rparr>"
  by code_simp

lemma text_two_accepted:
  "validateUserId \<lparr>body = JObj [(js ''id'', JStr (js ''2''))]\<rparr> =
   Next \<lparr>body = JObj [(js ''id'', JStr (js ''2''))]\<rparr>"
  by code_simp

text \<open>
  C8, as the claim states it: every accepted identifier gets a sequence of zero or one
  record. When the store reports an error, the accepted identifier \<open>2\<close> is answered
  with 500 and an object that carries the message; an object is not a sequence.
\<close>

theorem accepted_lookup_answers_error_object:
  "validateUserId \<lparr>body = JObj [(js ''id'', JStr (js ''2''))]\<rparr> =
     Next \<lparr>body = JObj [(js ''id'', JStr (js ''2''))]\<rparr> \<and>
   reply (post_user failing_store \<lparr>body = JObj [(js ''id'', JStr (js ''2''))]\<rparr>) =
     Sent \<lparr>status = 500,
           payload = Json (JObj [(js ''error'', JStr (js ''SQLITE_BUSY: database is locked''))])\<rparr>"
  using text_two_accepted lookup_in_failing_store by simp

text \<open>
  C8, amended. When the validator has accepted the request and the store answers the
  query, the response is 200 with a sequence of at most one row: if some user row
  matches the submitted identifier, the sequence holds one such row, as an object of
  its own \<open>id\<close> and \<open>name\<close> and nothing else; if none matches, the sequence is empty.
  When the store reports an error, the response is 500 with an object that carries the
  message of the error.
\<close>

theorem lookup_returns_zero_or_one_record:
  assumes "validateUserId req = Next req'"
  shows "\<exists>v. get_prop (body req) (js ''id'') = Inr v \<and>
           (failure db = None \<longrightarrow>
              (\<exists>rows. reply (post_user db req) =
                        Sent \<lparr>status = 200, payload = Json (JArr rows)\<rparr> \<and>
                 length rows \<le> 1 \<and>
                 ((\<exists>u\<in>set (users db). id_equals db (user_id u) v) \<longrightarrow>
                    (\<exists>u\<in>set (users db). id_equals db (user_id u) v \<and>
                       rows = [JObj [(js ''id'', JNum (number_of_int (user_id u))),
                                     (js ''name'', JStr (user_name u))]])) \<and>
                 (\<not> (\<exists>u\<in>set (users db). id_equals db (user_id u) v) \<longrightarrow> rows = []))) \<and>
           (\<forall>m. failure db = Some m \<longrightarrow>
              reply (post_user db req) =
                Sent \<lparr>status = 500, payload = Json (JObj [(js ''error'', JStr m)])\<rparr>)"
proof -
  from validateUserId_Next [OF assms(1)] obtain v
    where v: "get_prop (body req) (js ''id'') = Inr v" by blast
  have run: "post_user db req = user_handler db req"
    by (rule post_user_accepted(1) [OF assms(1) v])
  have failed: "\<forall>m. failure db = Some m \<longrightarrow>
      reply (post_user db req) =
        Sent \<lparr>status = 500, payload = Json (JObj [(js ''error'', JStr m)])\<rparr>"
    using v by (simp add: run user_handler_def)
  show ?thesis
  proof (cases "find (\<lambda>u. id_equals db (user_id u) v) (users db)")
    case None
    then have "\<not> (\<exists>u\<in>set (users db). id_equals db (user_id u) v)"
      by (simp add: find_None_iff)
    with None v failed show ?thesis
      by (simp add: run user_handler_def)
  next
    case (Some u)
    then have "u \<in> set (users db) \<and> id_equals db (user_id u) v"
      by (auto simp add: find_Some_iff)
    with Some v failed show ?thesis
      by (auto simp add: run user_handler_def user_row_json_def)
  qed
qed

theorem lookup_returns_zero_or_one_record_witness:
  "reply (post_user sample_store \<lparr>body = JObj [(js ''id'', JStr (js ''1''))]\<rparr>) =
     Sent \<lparr>status = 200,
           payload = Json (JArr [JObj [(js ''id'', JNum (number_of_int 1)),
                                       (js ''name'', JStr (js ''Ada Lovelace''))]])\<rparr> \<and>
   reply (post_user sample_store \<lparr>body = JObj [(js ''id'', JStr (js ''2''))]\<rparr>) =
     Sent \<lparr>status = 200,
           payload = Json (JArr [JObj [(js ''id'', JNum (number_of_int 2)),
                                       (js ''name'', JStr (js ''Alan Turing''))]])\<rparr> \<and>
   reply (post_user sample_store \<lparr>body = JObj [(js ''id'', JStr (js ''9''))]\<rparr>) =
     Sent \<lparr>status = 200, payload = Json (JArr [])\<rparr> \<and>
   reply (post_user failing_store \<lparr>body = JObj [(js ''id'', JStr (js ''2''))]\<rparr>) =
     Sent \<lparr>status = 500,
           payload = Json (JObj [(js ''error'', JStr (js ''SQLITE_BUSY: database is locked''))])\<rparr>"
  using lookup_returns_zero_or_one_record [OF text_two_accepted, of sample_store]
    lookup_returns_zero_or_one_record [OF text_two_accepted, of failing_store]
    lookup_of_first_id lookup_of_second_id lookup_of_missing_id lookup_in_failing_store
  by simp

section \<open>Passwords never reach a response\<close>

lemma map_related:
  assumes "list_all2 R xs ys" and "\<And>x y. R x y \<Longrightarrow> h x = k y"
  shows "map h xs = map k ys"
  using assms(1) by (induction rule: list_all2_induct) (simp_all add: assms(2))

lemma find_related:
  assumes "list_all2 R xs ys" and "\<And>x y. R x y \<Longrightarrow> P x = Q y"
    and "\<And>x y. R x y \<Longrightarrow> h x = k y"
  shows "map_option h (find P xs) = map_option k (find Q ys)"
  using assms(1) by (induction rule: list_all2_induct) (auto simp add: assms(2,3))

lemma user_handler_reply:
  "get_prop (body req) (js ''id'') = Inr v \<Longrightarrow>
   reply (user_handler db req) =
     (case failure db of
        Some m \<Rightarrow> Sent \<lparr>status = 500, payload = Json (JObj [(js ''error'', JStr m)])\<rparr>
      | None \<Rightarrow>
          (case map_option user_row_json (find (\<lambda>u. id_equals db (user_id u) v) (users db)) of
             Some j \<Rightarrow> Sent \<lparr>status = 200, payload = Json (JArr [j])\<rparr>
           | None \<Rightarrow> Sent \<lparr>status = 200, payload = Json (JArr [])\<rparr>))"
  by (simp add: user_handler_def split: option.splits)

lemma user_handler_same_reply:
  assumes "differ_only_in_passwords db db'"
  shows "reply (user_handler db req) = reply (user_handler db' req)"
proof (cases "get_prop (body req) (js ''id'')")
  case (Inl e)
  then show ?thesis by (simp add: user_handler_def no_store_access_def)
next
  case (Inr v)
  from assms have rel: "list_all2 (\<lambda>u u'. user_id u = user_id u' \<and> user_name u = user_name u')
      (users db) (users db')"
    and f: "failure db = failure db'" and e: "id_equals db = id_equals db'"
    by (simp_all add: differ_only_in_passwords_def)
  have m: "map_option user_row_json (find (\<lambda>u. id_equals db (user_id u) v) (users db)) =
        map_option user_row_json (find (\<lambda>u. id_equals db' (user_id u) v) (users db'))"
    by (rule find_related [OF rel]) (simp_all add: e user_row_json_def)
  show ?thesis
    unfolding user_handler_reply [OF Inr] m f ..
qed

lemma get_users_same_reply:
  assumes "differ_only_in_passwords db db'"
  shows "reply (get_users db) = reply (get_users db')"
proof -
  from assms have rel: "list_all2 (\<lambda>u u'. user_id u = user_id u' \<and> user_name u = user_name u')
      (users db) (users db')"
    and f: "failure db = failure db'"
    by (simp_all add: differ_only_in_passwords_def)
  have m: "map (\<lambda>u. JObj [(js ''id'', JNum (number_of_int (user_id u)))]) (users db) =
        map (\<lambda>u. JObj [(js ''id'', JNum (number_of_int (user_id u)))]) (users db')"
    by (rule map_related [OF rel]) simp
  show ?thesis by (simp add: get_users_def f m split: option.splits)
qed

lemma comment_handler_reply:
  "reply (comment_handler db req) =
     (case get_prop (body req) (js ''content'') of
        Inl e \<Rightarrow> Raised e
      | Inr c \<Rightarrow>
          (case failure db of
             Some m \<Rightarrow> Sent \<lparr>status = 500, payload = Json (JObj [(js ''error'', JStr m)])\<rparr>
           | None \<Rightarrow> Sent \<lparr>status = 200, payload = Json (JObj [(js ''success'', JBool True)])\<rparr>))"
  by (simp add: comment_handler_def no_store_access_def split: sum.splits option.splits)

lemma sample_stores_differ:
  "differ_only_in_passwords sample_store
     (sample_store_with (sample_users (js ''hunter2'') (js ''letmein'')))"
  by (simp add: differ_only_in_passwords_def sample_store_def sample_store_with_def
      sample_users_def)

lemma sample_passwords_differ:
  "map user_password (users sample_store) \<noteq>
   map user_password (users (sample_store_with (sample_users (js ''hunter2'') (js ''letmein''))))"
  by (simp add: sample_store_def sample_store_with_def sample_users_def js_def)

text \<open>
  C9. For two store states that differ only in the stored passwords of their users,
  the user listing, the identifier lookup, the comment listing and the comment
  creation send the same response, whatever the request: no response carries a
  password, plain or hashed.
\<close>

theorem responses_do_not_depend_on_passwords:
  assumes "differ_only_in_passwords db db'"
  shows "reply (get_users db) = reply (get_users db') \<and>
         reply (post_user db req) = reply (post_user db' req) \<and>
         reply (get_comments db) = reply (get_comments db') \<and>
         reply (post_comment db req) = reply (post_comment db' req)"
proof -
  from assms have f: "failure db = failure db'" and c: "comments db = comments db'"
    by (simp_all add: differ_only_in_passwords_def)
  have u: "reply (post_user db req) = reply (post_user db' req)"
    using user_handler_same_reply [OF assms]
    by (simp add: post_user_def no_store_access_def split: outcome.splits)
  have g: "reply (get_comments db) = reply (get_comments db')"
    by (simp add: get_comments_def f c split: option.splits)
  have p: "reply (post_comment db req) = reply (post_comment db' req)"
    by (simp add: post_comment_def no_store_access_def comment_handler_reply f
        split: outcome.splits sum.splits option.splits)
  from get_users_same_reply [OF assms] u g p show ?thesis by simp
qed

theorem responses_do_not_depend_on_passwords_witness:
  "map user_password (users sample_store) \<noteq>
     map user_password (users (sample_store_with (sample_users (js ''hunter2'') (js ''letmein'')))) \<and>
   reply (get_users sample_store) =
     reply (get_users (sample_store_with (sample_users (js ''hunter2'') (js ''letmein'')))) \<and>
   reply (post_user sample_store \<lparr>body = JObj [(js ''id'', JStr (js ''2''))]\<rparr>) =
     reply (post_user (sample_store_with (sample_users (js ''hunter2'') (js ''letmein'')))
       \<lparr>body = JObj [(js ''id'', JStr (js ''2''))]\<rparr>) \<and>
   reply (get_comments sample_store) =
     reply (get_comments (sample_store_with (sample_users (js ''hunter2'') (js ''letmein''))))"
  using responses_do_not_depend_on_passwords
      [OF sample_stores_differ, of "\<lparr>body = JObj [(js ''id'', JStr (js ''2''))]\<rparr>"]
    sample_passwords_differ
  by simp

end
